theory Spec2Isabelle
  imports Main
begin

section \<open>The paste server of \<^verbatim>\<open>src/index.js\<close>\<close>

text \<open>
  The server keeps one table, \<^verbatim>\<open>pastes\<close>, and answers five requests. Each handler is
  embedded as a function from the table before the request to the response and the table
  after it. What a handler takes from outside the program is a field of the environment
  of that request: the clock of the store (\<^verbatim>\<open>NOW()\<close>, \<^verbatim>\<open>CURRENT_TIMESTAMP\<close>), the clock of
  the server (\<^verbatim>\<open>Date.now()\<close>), the random identifier and the three calls into the
  CryptoJS library, whose code is not part of the program. A request is handled as a
  whole, one after the other; the store fails only where a statement itself fails (a
  duplicate primary key, an integer out of range).

  Timestamps are integers (milliseconds) on one time line. Strings are lists of
  characters, each one character for PostgreSQL and one code unit for JavaScript, so that
  \<^verbatim>\<open>LENGTH\<close> and \<^verbatim>\<open>.length\<close> are both the length of the list. The fields of a request body
  have the types the handlers use them at; a passphrase or a duration may be absent.
\<close>

subsection \<open>Rows, request bodies and responses\<close>

text \<open>A row of the table \<^verbatim>\<open>pastes\<close>, one field per column (column \<^verbatim>\<open>id\<close> is \<open>paste_id\<close>).\<close>

record paste =
  paste_id :: string
  content :: string
  language :: string
  expires_at :: "int option"
  burn_after_read :: bool
  is_private :: bool
  views :: int
  created_at :: int
  deleted :: bool
  is_encrypted :: bool

type_synonym pastes = "paste list"

text \<open>The body of \<^verbatim>\<open>POST /api/pastes\<close>; \<open>None\<close> is a field that is not there.\<close>

record create_body =
  body_content :: string
  expiresIn :: "int option"
  body_language :: string
  burnAfterRead :: bool
  isPrivate :: bool
  body_password :: "string option"

text \<open>What a JavaScript call does: it returns a value or it throws.\<close>

datatype 'a js_result = Returned 'a | Thrown

type_synonym WordArray = "nat list"

record env =
  NOW :: int
  Date_now :: int
  randomBytes_hex :: string
  AES_encrypt :: "string \<Rightarrow> string \<Rightarrow> string js_result"
  AES_decrypt :: "string \<Rightarrow> string \<Rightarrow> WordArray js_result"
  enc_Utf8 :: "WordArray \<Rightarrow> string js_result"

text \<open>
  The object sent by \<^verbatim>\<open>GET /api/preview/:id\<close>: the selected columns, then the five
  fields the handler adds.
\<close>

record preview =
  pv_id :: string
  pv_content :: string
  pv_language :: string
  pv_expires_at :: "int option"
  pv_burn_after_read :: bool
  pv_is_private :: bool
  pv_is_encrypted :: bool
  pv_views :: int
  pv_created_at :: int
  pv_isPrivate :: bool
  pv_isEncrypted :: bool
  pv_burnAfterRead :: bool
  pv_createdAt :: int
  pv_expiresAt :: "int option"

text \<open>
  A row as the query of \<^verbatim>\<open>GET /api/pastes\<close> selects it. The query does not select
  \<^verbatim>\<open>is_encrypted\<close>, so the row object has no such property.
\<close>

record listed_row =
  lr_id :: string
  lr_content :: string
  lr_language :: string
  lr_created_at :: int
  lr_views :: int
  lr_is_private :: bool
  lr_burn_after_read :: bool
  lr_expires_at :: "int option"

text \<open>
  An element of the array sent by \<^verbatim>\<open>GET /api/pastes\<close>. \<open>sp_isEncrypted\<close> is \<open>None\<close>
  when the property is \<^verbatim>\<open>undefined\<close>.
\<close>

record safe_paste =
  sp_id :: string
  sp_content :: string
  sp_language :: string
  sp_created_at :: int
  sp_views :: int
  sp_is_private :: bool
  sp_burn_after_read :: bool
  sp_expires_at :: "int option"
  sp_isPrivate :: bool
  sp_isEncrypted :: "bool option"
  sp_burnAfterRead :: bool
  sp_createdAt :: int
  sp_expiresAt :: "int option"

datatype response =
    Json_id string
  | Json_paste paste
  | Json_pastes "safe_paste list"
  | Json_preview preview
  | Json_message string
  | Json_error nat string

datatype request =
    Create_paste create_body
  | Get_paste string "string option"
  | List_pastes
  | Preview_paste string
  | Delete_paste string

subsection \<open>The cipher helpers\<close>

definition encryptContent :: "env \<Rightarrow> string \<Rightarrow> string \<Rightarrow> string js_result" where
  "encryptContent e c password = AES_encrypt e c password"

definition decryptContent :: "env \<Rightarrow> string \<Rightarrow> string \<Rightarrow> string js_result" where
  "decryptContent e encryptedContent password =
     (case AES_decrypt e encryptedContent password of
        Thrown \<Rightarrow> Thrown
      | Returned bytes \<Rightarrow> enc_Utf8 e bytes)"

subsection \<open>The queries\<close>

text \<open>\<^verbatim>\<open>(expires_at IS NULL OR expires_at > NOW()) AND NOT deleted\<close>\<close>

definition live :: "int \<Rightarrow> paste \<Rightarrow> bool" where
  "live now p =
     ((case expires_at p of None \<Rightarrow> True | Some t \<Rightarrow> now < t) \<and> \<not> deleted p)"

definition select_live_by_id :: "int \<Rightarrow> string \<Rightarrow> pastes \<Rightarrow> pastes" where
  "select_live_by_id now i db = filter (\<lambda>p. paste_id p = i \<and> live now p) db"

definition select_not_deleted_by_id :: "string \<Rightarrow> pastes \<Rightarrow> pastes" where
  "select_not_deleted_by_id i db = filter (\<lambda>p. paste_id p = i \<and> \<not> deleted p) db"

text \<open>
  \<^verbatim>\<open>INSERT\<close>: \<open>id\<close> is the primary key, so the statement fails when a row has the
  identifier already. \<open>created_at\<close> and \<open>deleted\<close> take their defaults.
\<close>

definition insert_paste ::
  "int \<Rightarrow> string \<Rightarrow> string \<Rightarrow> string \<Rightarrow> int option \<Rightarrow> bool \<Rightarrow> bool \<Rightarrow> bool \<Rightarrow> pastes
     \<Rightarrow> pastes option" where
  "insert_paste now i c l ex burn priv encr db =
     (if \<exists>p \<in> set db. paste_id p = i then None
      else Some (db @ [\<lparr>paste_id = i, content = c, language = l, expires_at = ex,
                         burn_after_read = burn, is_private = priv, views = 0,
                         created_at = now, deleted = False, is_encrypted = encr\<rparr>]))"

text \<open>
  \<^verbatim>\<open>UPDATE pastes SET views = views + 1 WHERE id = ...\<close>: the column is a 32-bit
  \<^verbatim>\<open>INTEGER\<close>, and the statement fails, changing nothing, when a sum is out of its range.
\<close>

definition INT_MAX :: int where
  "INT_MAX = 2147483647"

definition increment_views :: "string \<Rightarrow> pastes \<Rightarrow> pastes option" where
  "increment_views i db =
     (if \<exists>p \<in> set db. paste_id p = i \<and> views p + 1 > INT_MAX then None
      else Some (map (\<lambda>p. if paste_id p = i then p\<lparr>views := views p + 1\<rparr> else p) db))"

text \<open>\<^verbatim>\<open>UPDATE pastes SET deleted = true WHERE id = ...\<close>\<close>

definition set_deleted :: "string \<Rightarrow> pastes \<Rightarrow> pastes" where
  "set_deleted i db = map (\<lambda>p. if paste_id p = i then p\<lparr>deleted := True\<rparr> else p) db"

text \<open>
  The \<^verbatim>\<open>CASE\<close> expression that both the list and the preview query select as
  \<^verbatim>\<open>content\<close>.
\<close>

definition sql_content :: "paste \<Rightarrow> string" where
  "sql_content p =
     (if is_encrypted p then ''[Encrypted Content]''
      else take 100 (content p) @ (if length (content p) > 100 then ''...'' else ''''))"

text \<open>
  The rows of the list query: \<^verbatim>\<open>WHERE NOT deleted AND (expires_at IS NULL OR
  expires_at > NOW()) ORDER BY created_at DESC LIMIT 100\<close>. SQL leaves the order of rows with
  equal \<open>created_at\<close> open; here they keep the order of the table.
\<close>

definition select_list_rows :: "int \<Rightarrow> pastes \<Rightarrow> pastes" where
  "select_list_rows now db = take 100 (sort_key (\<lambda>p. - created_at p) (filter (live now) db))"

text \<open>The columns the list query selects from each of these rows.\<close>

definition select_list :: "int \<Rightarrow> pastes \<Rightarrow> listed_row list" where
  "select_list now db =
     map (\<lambda>p. \<lparr>lr_id = paste_id p, lr_content = sql_content p, lr_language = language p,
               lr_created_at = created_at p, lr_views = views p,
               lr_is_private = is_private p, lr_burn_after_read = burn_after_read p,
               lr_expires_at = expires_at p\<rparr>)
       (select_list_rows now db)"

definition select_preview :: "int \<Rightarrow> string \<Rightarrow> pastes \<Rightarrow> preview list" where
  "select_preview now i db =
     map (\<lambda>p. \<lparr>pv_id = paste_id p, pv_content = sql_content p, pv_language = language p,
               pv_expires_at = expires_at p, pv_burn_after_read = burn_after_read p,
               pv_is_private = is_private p, pv_is_encrypted = is_encrypted p,
               pv_views = views p, pv_created_at = created_at p,
               pv_isPrivate = is_private p, pv_isEncrypted = is_encrypted p,
               pv_burnAfterRead = burn_after_read p, pv_createdAt = created_at p,
               pv_expiresAt = expires_at p\<rparr>)
       (select_live_by_id now i db)"

subsection \<open>The handlers\<close>

text \<open>\<^verbatim>\<open>!!password\<close>: a password that is absent or the empty string is falsy.\<close>

fun truthy :: "string option \<Rightarrow> bool" where
  "truthy None = False"
| "truthy (Some s) = (s \<noteq> [])"

text \<open>\<^verbatim>\<open>POST /api/pastes\<close>\<close>

definition create_paste :: "env \<Rightarrow> create_body \<Rightarrow> pastes \<Rightarrow> response \<times> pastes" where
  "create_paste e body db =
     (let i = randomBytes_hex e;
          expirationDate =
            (case expiresIn body of
               None \<Rightarrow> None
             | Some d \<Rightarrow> if d = 0 then None else Some (Date_now e + d));
          isEncrypted = truthy (body_password body);
          finalContent =
            (case body_password body of
               None \<Rightarrow> Returned (body_content body)
             | Some pw \<Rightarrow>
                 if pw = [] then Returned (body_content body)
                 else encryptContent e (body_content body) pw)
      in case finalContent of
           Thrown \<Rightarrow> (Json_error 500 ''Failed to create paste'', db)
         | Returned c \<Rightarrow>
             (case insert_paste (NOW e) i c (body_language body) expirationDate
                     (burnAfterRead body) (isPrivate body) isEncrypted db of
                None \<Rightarrow> (Json_error 500 ''Failed to create paste'', db)
              | Some db' \<Rightarrow> (Json_id i, db')))"

text \<open>
  \<^verbatim>\<open>GET /api/pastes/:id\<close>, from the increment of the views on. \<open>p\<close> is the row object
  fetched at the start of the handler, its content already replaced by the plaintext.
\<close>

definition count_view :: "string \<Rightarrow> paste \<Rightarrow> pastes \<Rightarrow> response \<times> pastes" where
  "count_view i p db =
     (case increment_views i db of
        None \<Rightarrow> (Json_error 500 ''Failed to fetch paste'', db)
      | Some db1 \<Rightarrow>
          (Json_paste p,
           if burn_after_read p \<and> views p \<ge> 1 then set_deleted i db1 else db1))"

text \<open>\<^verbatim>\<open>GET /api/pastes/:id\<close>\<close>

definition get_paste :: "env \<Rightarrow> string \<Rightarrow> string option \<Rightarrow> pastes \<Rightarrow> response \<times> pastes" where
  "get_paste e i password db =
     (case select_live_by_id (NOW e) i db of
        [] \<Rightarrow> (Json_error 404 ''Paste not found'', db)
      | p # _ \<Rightarrow>
          if is_encrypted p then
            (case password of
               None \<Rightarrow> (Json_error 401 ''Password required for encrypted paste'', db)
             | Some pw \<Rightarrow>
                 if pw = [] then (Json_error 401 ''Password required for encrypted paste'', db)
                 else
                   (case decryptContent e (content p) pw of
                      Thrown \<Rightarrow> (Json_error 401 ''Invalid password'', db)
                    | Returned c \<Rightarrow> count_view i (p\<lparr>content := c\<rparr>) db))
          else count_view i p db)"

text \<open>
  \<^verbatim>\<open>GET /api/pastes\<close>. The row object has no \<^verbatim>\<open>is_encrypted\<close>, which is falsy, so the
  conditional takes its second branch for every row.
\<close>

definition safePaste :: "listed_row \<Rightarrow> safe_paste" where
  "safePaste r =
     \<lparr>sp_id = lr_id r,
      sp_content = lr_content r @ (if length (lr_content r) > 100 then ''...'' else ''''),
      sp_language = lr_language r, sp_created_at = lr_created_at r, sp_views = lr_views r,
      sp_is_private = lr_is_private r, sp_burn_after_read = lr_burn_after_read r,
      sp_expires_at = lr_expires_at r,
      sp_isPrivate = lr_is_private r, sp_isEncrypted = None,
      sp_burnAfterRead = lr_burn_after_read r, sp_createdAt = lr_created_at r,
      sp_expiresAt = lr_expires_at r\<rparr>"

definition list_pastes :: "env \<Rightarrow> pastes \<Rightarrow> response \<times> pastes" where
  "list_pastes e db = (Json_pastes (map safePaste (select_list (NOW e) db)), db)"

text \<open>\<^verbatim>\<open>GET /api/preview/:id\<close>\<close>

definition preview_paste :: "env \<Rightarrow> string \<Rightarrow> pastes \<Rightarrow> response \<times> pastes" where
  "preview_paste e i db =
     (case select_preview (NOW e) i db of
        [] \<Rightarrow> (Json_error 404 ''Paste not found'', db)
      | p # _ \<Rightarrow> (Json_preview p, db))"

text \<open>\<^verbatim>\<open>DELETE /api/pastes/:id\<close>\<close>

definition delete_paste :: "string \<Rightarrow> pastes \<Rightarrow> response \<times> pastes" where
  "delete_paste i db =
     (case select_not_deleted_by_id i db of
        [] \<Rightarrow> (Json_error 404 ''Paste not found'', db)
      | _ # _ \<Rightarrow> (Json_message ''Paste deleted successfully'', set_deleted i db))"

text \<open>One request, and a sequence of requests, each with its own environment.\<close>

fun handle :: "env \<Rightarrow> request \<Rightarrow> pastes \<Rightarrow> response \<times> pastes" where
  "handle e (Create_paste body) db = create_paste e body db"
| "handle e (Get_paste i password) db = get_paste e i password db"
| "handle e List_pastes db = list_pastes e db"
| "handle e (Preview_paste i) db = preview_paste e i db"
| "handle e (Delete_paste i) db = delete_paste i db"

fun serve :: "(env \<times> request) list \<Rightarrow> pastes \<Rightarrow> response list \<times> pastes" where
  "serve [] db = ([], db)"
| "serve ((e, r) # rs) db =
     (let (a, db1) = handle e r db; (as, db2) = serve rs db1 in (a # as, db2))"


section \<open>What the properties speak about\<close>

text \<open>The stored counter of the row with a given identifier.\<close>

definition stored_views :: "string \<Rightarrow> pastes \<Rightarrow> int option" where
  "stored_views i db = map_option views (find (\<lambda>p. paste_id p = i) db)"

text \<open>A request and its response are a successful full read of \<open>i\<close>.\<close>

fun successful_read :: "string \<Rightarrow> request \<Rightarrow> response \<Rightarrow> bool" where
  "successful_read i (Get_paste j _) (Json_paste _) = (j = i)"
| "successful_read _ _ _ = False"

definition successful_reads :: "string \<Rightarrow> (env \<times> request) list \<Rightarrow> response list \<Rightarrow> nat" where
  "successful_reads i rs as =
     length (filter (\<lambda>(r, a). successful_read i r a) (zip (map snd rs) as))"

text \<open>The identifiers, contents and creation times of a list response, in its order.\<close>

fun listed_ids :: "response \<Rightarrow> string list" where
  "listed_ids (Json_pastes sps) = map sp_id sps"
| "listed_ids _ = []"

fun listed_contents :: "response \<Rightarrow> string list" where
  "listed_contents (Json_pastes sps) = map sp_content sps"
| "listed_contents _ = []"

fun listed_created :: "response \<Rightarrow> int list" where
  "listed_created (Json_pastes sps) = map sp_created_at sps"
| "listed_created _ = []"

text \<open>The table has a row with identifier \<open>i\<close>, and every such row is deleted.\<close>

definition all_deleted :: "string \<Rightarrow> pastes \<Rightarrow> bool" where
  "all_deleted i db \<longleftrightarrow>
     i \<in> set (map paste_id db) \<and> (\<forall>q \<in> set db. paste_id q = i \<longrightarrow> deleted q)"

subsection \<open>Values for the examples\<close>

text \<open>
  The theorems below hold for every library. The examples need one: a stand-in whose
  ciphertext is the passphrase, a separator and the plaintext. Decrypting with another
  passphrase gives, as the real library may, bytes that are no UTF-8 text (a passphrase
  of odd length) or no bytes at all (a passphrase of even length).
\<close>

definition lib_encrypt :: "string \<Rightarrow> string \<Rightarrow> string js_result" where
  "lib_encrypt c pw = Returned (pw @ ''$'' @ c)"

definition lib_decrypt :: "string \<Rightarrow> string \<Rightarrow> WordArray js_result" where
  "lib_decrypt ct pw =
     Returned (if take (length pw + 1) ct = pw @ ''$''
               then map of_char (drop (length pw + 1) ct)
               else if even (length pw) then [] else [255])"

definition lib_Utf8 :: "WordArray \<Rightarrow> string js_result" where
  "lib_Utf8 bytes =
     (if list_all (\<lambda>b. b < 128) bytes then Returned (map char_of bytes) else Thrown)"

definition env_at :: "int \<Rightarrow> string \<Rightarrow> env" where
  "env_at t i =
     \<lparr>NOW = t, Date_now = t, randomBytes_hex = i, AES_encrypt = lib_encrypt,
      AES_decrypt = lib_decrypt, enc_Utf8 = lib_Utf8\<rparr>"

definition plain_body :: "string \<Rightarrow> bool \<Rightarrow> create_body" where
  "plain_body c burn =
     \<lparr>body_content = c, expiresIn = None, body_language = ''plain'', burnAfterRead = burn,
      isPrivate = False, body_password = None\<rparr>"

definition secret_body :: "string \<Rightarrow> string option \<Rightarrow> create_body" where
  "secret_body c pw =
     \<lparr>body_content = c, expiresIn = Some 60000, body_language = ''plain'',
      burnAfterRead = False, isPrivate = True, body_password = pw\<rparr>"

definition plain_row :: "string \<Rightarrow> string \<Rightarrow> bool \<Rightarrow> int \<Rightarrow> int \<Rightarrow> paste" where
  "plain_row i c burn v t =
     \<lparr>paste_id = i, content = c, language = ''plain'', expires_at = None,
      burn_after_read = burn, is_private = False, views = v, created_at = t,
      deleted = False, is_encrypted = False\<rparr>"

definition secret_row :: "string \<Rightarrow> string \<Rightarrow> int \<Rightarrow> paste" where
  "secret_row i c v =
     \<lparr>paste_id = i, content = c, language = ''plain'', expires_at = Some 60000,
      burn_after_read = False, is_private = True, views = v, created_at = 0,
      deleted = False, is_encrypted = True\<rparr>"

text \<open>Identifiers \<open>00000000\<close> to \<open>000000ff\<close>, and a table of \<open>n\<close> rows created at times \<open>0\<close> to \<open>n - 1\<close>.\<close>

definition hex_id :: "nat \<Rightarrow> string" where
  "hex_id k =
     ''000000'' @ [''0123456789abcdef'' ! (k div 16), ''0123456789abcdef'' ! (k mod 16)]"

definition many_rows :: "nat \<Rightarrow> pastes" where
  "many_rows n = map (\<lambda>k. plain_row (hex_id k) ''x'' False 0 (int k)) [0..<n]"

section \<open>Properties\<close>

lemmas handler_defs =
  create_paste_def get_paste_def count_view_def list_pastes_def preview_paste_def
  delete_paste_def insert_paste_def increment_views_def set_deleted_def
  select_live_by_id_def select_not_deleted_by_id_def select_preview_def live_def
  encryptContent_def decryptContent_def INT_MAX_def Let_def

lemmas example_defs =
  env_at_def plain_body_def secret_body_def plain_row_def secret_row_def
  lib_encrypt_def lib_decrypt_def lib_Utf8_def

subsection \<open>The two updates\<close>

lemma paste_id_set_deleted [simp]: "map paste_id (set_deleted i db) = map paste_id db"
  by (induction db) (simp_all add: set_deleted_def)

lemma increment_views_ids:
  "increment_views i db = Some db1 \<Longrightarrow> map paste_id db1 = map paste_id db"
  by (induction db arbitrary: db1) (auto simp: increment_views_def split: if_splits)

lemma stored_views_set_deleted [simp]:
  "stored_views i (set_deleted j db) = stored_views i db"
  by (induction db) (simp_all add: stored_views_def set_deleted_def)

lemma stored_views_incremented:
  "stored_views i (map (\<lambda>p. if paste_id p = j then p\<lparr>views := views p + 1\<rparr> else p) db) =
     (if i = j then map_option (\<lambda>n. n + 1) (stored_views i db) else stored_views i db)"
  by (induction db) (auto simp: stored_views_def)

lemma stored_views_increment:
  "increment_views j db = Some db1 \<Longrightarrow>
     stored_views i db1 =
       (if i = j then map_option (\<lambda>n. n + 1) (stored_views i db) else stored_views i db)"
proof -
  assume "increment_views j db = Some db1"
  then have "db1 = map (\<lambda>p. if paste_id p = j then p\<lparr>views := views p + 1\<rparr> else p) db"
    by (simp add: increment_views_def split: if_splits)
  then show ?thesis by (simp only: stored_views_incremented)
qed

lemma stored_views_append:
  "stored_views i (db @ [p]) =
     (case stored_views i db of
        Some n \<Rightarrow> Some n
      | None \<Rightarrow> if paste_id p = i then Some (views p) else None)"
  by (induction db) (simp_all add: stored_views_def)

lemma stored_views_None: "stored_views i db = None \<longleftrightarrow> \<not> (\<exists>p \<in> set db. paste_id p = i)"
  by (auto simp: stored_views_def find_None_iff)

lemma select_live_set_deleted [simp]: "select_live_by_id now i (set_deleted i db) = []"
  by (induction db) (simp_all add: select_live_by_id_def set_deleted_def live_def)

lemma select_live_empty:
  "select_live_by_id now i db = [] \<longleftrightarrow> \<not> (\<exists>p \<in> set db. paste_id p = i \<and> live now p)"
  by (induction db) (simp_all add: select_live_by_id_def)

lemma select_live_Cons:
  assumes "select_live_by_id now i db = p # ps"
  shows "p \<in> set db \<and> paste_id p = i \<and> live now p"
proof -
  have "p \<in> set (select_live_by_id now i db)" by (simp add: assms)
  then show ?thesis by (simp add: select_live_by_id_def)
qed

subsection \<open>The read handler, branch by branch\<close>

lemma count_view_cases:
  "count_view i p db = (Json_error 500 ''Failed to fetch paste'', db) \<or>
   (\<exists>db1. increment_views i db = Some db1 \<and>
      count_view i p db =
        (Json_paste p, if burn_after_read p \<and> views p \<ge> 1 then set_deleted i db1 else db1))"
  by (cases "increment_views i db") (simp_all add: count_view_def)

lemma count_view_error: "count_view i p db = (Json_error n m, db') \<Longrightarrow> db' = db"
  using count_view_cases [of i p db] by auto

lemma count_view_not_401: "fst (count_view i p db) \<noteq> Json_error 401 m"
  using count_view_cases [of i p db] by auto

lemma count_view_not_404: "fst (count_view i p db) \<noteq> Json_error 404 m"
  using count_view_cases [of i p db] by auto

lemma get_paste_not_found:
  "select_live_by_id (NOW e) i db = [] \<Longrightarrow>
     get_paste e i pw db = (Json_error 404 ''Paste not found'', db)"
  by (simp add: get_paste_def)

lemma get_paste_password_required:
  "select_live_by_id (NOW e) i db = p # ps \<Longrightarrow> is_encrypted p \<Longrightarrow> \<not> truthy pw \<Longrightarrow>
     get_paste e i pw db = (Json_error 401 ''Password required for encrypted paste'', db)"
  by (cases pw) (simp_all add: get_paste_def)

lemma get_paste_decrypt_thrown:
  "select_live_by_id (NOW e) i db = p # ps \<Longrightarrow> is_encrypted p \<Longrightarrow> s \<noteq> [] \<Longrightarrow>
     decryptContent e (content p) s = Thrown \<Longrightarrow>
     get_paste e i (Some s) db = (Json_error 401 ''Invalid password'', db)"
  by (simp add: get_paste_def)

lemma get_paste_decrypted:
  "select_live_by_id (NOW e) i db = p # ps \<Longrightarrow> is_encrypted p \<Longrightarrow> s \<noteq> [] \<Longrightarrow>
     decryptContent e (content p) s = Returned c \<Longrightarrow>
     get_paste e i (Some s) db = count_view i (p\<lparr>content := c\<rparr>) db"
  by (simp add: get_paste_def)

lemma get_paste_plaintext:
  "select_live_by_id (NOW e) i db = p # ps \<Longrightarrow> \<not> is_encrypted p \<Longrightarrow>
     get_paste e i pw db = count_view i p db"
  by (simp add: get_paste_def)

text \<open>Every read takes exactly one of the five branches.\<close>

lemma get_paste_branches:
  obtains
    (not_found) "select_live_by_id (NOW e) i db = []"
      "get_paste e i pw db = (Json_error 404 ''Paste not found'', db)"
  | (password_required) p ps where "select_live_by_id (NOW e) i db = p # ps" "is_encrypted p"
      "\<not> truthy pw"
      "get_paste e i pw db = (Json_error 401 ''Password required for encrypted paste'', db)"
  | (invalid_password) p ps s where "select_live_by_id (NOW e) i db = p # ps" "is_encrypted p"
      "pw = Some s" "s \<noteq> []" "decryptContent e (content p) s = Thrown"
      "get_paste e i pw db = (Json_error 401 ''Invalid password'', db)"
  | (decrypted) p ps s c where "select_live_by_id (NOW e) i db = p # ps" "is_encrypted p"
      "pw = Some s" "s \<noteq> []" "decryptContent e (content p) s = Returned c"
      "get_paste e i pw db = count_view i (p\<lparr>content := c\<rparr>) db"
  | (plaintext) p ps where "select_live_by_id (NOW e) i db = p # ps" "\<not> is_encrypted p"
      "get_paste e i pw db = count_view i p db"
proof (cases "select_live_by_id (NOW e) i db")
  case Nil
  then show ?thesis using not_found get_paste_not_found by blast
next
  case (Cons p ps)
  show ?thesis
  proof (cases "is_encrypted p")
    case False
    with Cons show ?thesis using plaintext get_paste_plaintext by blast
  next
    case True
    show ?thesis
    proof (cases "truthy pw")
      case False
      with Cons True show ?thesis
        using password_required get_paste_password_required by blast
    next
      case t: True
      then obtain s where s: "pw = Some s" "s \<noteq> []" by (cases pw) auto
      show ?thesis
      proof (cases "decryptContent e (content p) s")
        case Thrown
        with Cons True s show ?thesis
          using invalid_password get_paste_decrypt_thrown by blast
      next
        case (Returned c)
        with Cons True s show ?thesis
          using decrypted get_paste_decrypted by blast
      qed
    qed
  qed
qed

lemma get_paste_error_unchanged:
  assumes "get_paste e i pw db = (Json_error n m, db')"
  shows "db' = db"
  using assms
  by - (rule get_paste_branches [where e = e and i = i and db = db and pw = pw]; auto dest: count_view_error count_view_error [OF sym])

lemma get_paste_404_iff:
  "fst (get_paste e i pw db) = Json_error 404 ''Paste not found'' \<longleftrightarrow>
     select_live_by_id (NOW e) i db = []"
  by (rule get_paste_branches [where e = e and i = i and db = db and pw = pw]) (simp_all add: count_view_not_404)

lemma get_paste_401_required_iff:
  "fst (get_paste e i pw db) = Json_error 401 ''Password required for encrypted paste'' \<longleftrightarrow>
     (\<exists>p ps. select_live_by_id (NOW e) i db = p # ps \<and> is_encrypted p \<and> \<not> truthy pw)"
  by (rule get_paste_branches [where e = e and i = i and db = db and pw = pw]) (auto simp: count_view_not_401)

lemma get_paste_401_invalid_iff:
  "fst (get_paste e i pw db) = Json_error 401 ''Invalid password'' \<longleftrightarrow>
     (\<exists>p ps s. select_live_by_id (NOW e) i db = p # ps \<and> is_encrypted p \<and> pw = Some s \<and>
        s \<noteq> [] \<and> decryptContent e (content p) s = Thrown)"
  by (rule get_paste_branches [where e = e and i = i and db = db and pw = pw]) (auto simp: count_view_not_401)

lemma get_paste_Json_paste:
  assumes "get_paste e i pw db = (Json_paste q, db')"
  shows "\<exists>p ps db1. select_live_by_id (NOW e) i db = p # ps \<and> q = p\<lparr>content := content q\<rparr> \<and>
     increment_views i db = Some db1 \<and>
     db' = (if burn_after_read p \<and> views p \<ge> 1 then set_deleted i db1 else db1)"
proof (rule get_paste_branches [where e = e and i = i and db = db and pw = pw], goal_cases)
  case (4 p ps s c)
  with assms count_view_cases [of i "p\<lparr>content := c\<rparr>" db] show ?thesis by auto
next
  case (5 p ps)
  with assms count_view_cases [of i p db] show ?thesis by auto
qed (use assms in simp_all)

lemma get_paste_Json_paste_table:
  assumes "get_paste e i pw db = (Json_paste q, db')"
  shows "\<exists>db1. increment_views i db = Some db1 \<and> (db' = db1 \<or> db' = set_deleted i db1)"
proof -
  from get_paste_Json_paste [OF assms] obtain p :: paste and db1 where
    "increment_views i db = Some db1"
    "db' = (if burn_after_read p \<and> views p \<ge> 1 then set_deleted i db1 else db1)"
    by blast
  then show ?thesis by (cases "burn_after_read p \<and> views p \<ge> 1") auto
qed

lemma count_view_response:
  "(case fst (count_view i p db) of Json_paste _ \<Rightarrow> True | Json_error _ _ \<Rightarrow> True | _ \<Rightarrow> False)"
  by (cases "increment_views i db") (simp_all add: count_view_def)

lemma get_paste_response:
  "(case fst (get_paste e i pw db) of Json_paste _ \<Rightarrow> True | Json_error _ _ \<Rightarrow> True | _ \<Rightarrow> False)"
  by (rule get_paste_branches [where e = e and i = i and db = db and pw = pw])
    (simp_all add: count_view_response)

subsection \<open>Failing reads\<close>

text \<open>
  Claim C4. A read answers \<^verbatim>\<open>404 Paste not found\<close> exactly when no live row has the
  identifier; it answers \<^verbatim>\<open>401 Password required\<close> exactly when there is a live row, it
  is encrypted and the passphrase is absent or empty; it answers \<^verbatim>\<open>401 Invalid password\<close>
  exactly when there is a live row, it is encrypted, a non-empty passphrase is given and
  decrypting throws. So the three failures exclude each other and are tested in this order.
  Whatever error a read answers (these three, or the 500 of a failed update), the table
  after the read is the table before it: no view is counted and nothing is deleted.
\<close>

theorem get_paste_failure_branches:
  "(fst (get_paste e i pw db) = Json_error 404 ''Paste not found'' \<longleftrightarrow>
      select_live_by_id (NOW e) i db = []) \<and>
   (fst (get_paste e i pw db) = Json_error 401 ''Password required for encrypted paste'' \<longleftrightarrow>
      (\<exists>p ps. select_live_by_id (NOW e) i db = p # ps \<and> is_encrypted p \<and> \<not> truthy pw)) \<and>
   (fst (get_paste e i pw db) = Json_error 401 ''Invalid password'' \<longleftrightarrow>
      (\<exists>p ps s. select_live_by_id (NOW e) i db = p # ps \<and> is_encrypted p \<and> pw = Some s \<and>
         s \<noteq> [] \<and> decryptContent e (content p) s = Thrown)) \<and>
   (\<forall>n m. fst (get_paste e i pw db) = Json_error n m \<longrightarrow> snd (get_paste e i pw db) = db)"
proof -
  have "\<forall>n m. fst (get_paste e i pw db) = Json_error n m \<longrightarrow> snd (get_paste e i pw db) = db"
  proof (intro allI impI)
    fix n m
    assume "fst (get_paste e i pw db) = Json_error n m"
    then have "get_paste e i pw db = (Json_error n m, snd (get_paste e i pw db))"
      by (simp add: prod_eq_iff)
    then show "snd (get_paste e i pw db) = db" by (rule get_paste_error_unchanged)
  qed
  then show ?thesis
    by (simp only: get_paste_404_iff get_paste_401_required_iff get_paste_401_invalid_iff
        simp_thms)
qed

text \<open>
  The three failures on one encrypted paste: no passphrase, a passphrase the stand-in
  library throws on, and a read after the paste has expired. The table stays as it is.
\<close>

theorem get_paste_failure_branches_witness:
  "fst (get_paste (env_at 1 []) ''9f3a01c7'' None [secret_row ''9f3a01c7'' ''right$hello'' 0]) =
     Json_error 401 ''Password required for encrypted paste'' \<and>
   snd (get_paste (env_at 1 []) ''9f3a01c7'' None [secret_row ''9f3a01c7'' ''right$hello'' 0]) =
     [secret_row ''9f3a01c7'' ''right$hello'' 0] \<and>
   fst (get_paste (env_at 2 []) ''9f3a01c7'' (Some ''wrong'')
          [secret_row ''9f3a01c7'' ''right$hello'' 0]) =
     Json_error 401 ''Invalid password'' \<and>
   snd (get_paste (env_at 2 []) ''9f3a01c7'' (Some ''wrong'')
          [secret_row ''9f3a01c7'' ''right$hello'' 0]) =
     [secret_row ''9f3a01c7'' ''right$hello'' 0] \<and>
   fst (get_paste (env_at 60000 []) ''9f3a01c7'' (Some ''right'')
          [secret_row ''9f3a01c7'' ''right$hello'' 0]) =
     Json_error 404 ''Paste not found'' \<and>
   snd (get_paste (env_at 60000 []) ''9f3a01c7'' (Some ''right'')
          [secret_row ''9f3a01c7'' ''right$hello'' 0]) =
     [secret_row ''9f3a01c7'' ''right$hello'' 0]"
proof -
  let ?db = "[secret_row ''9f3a01c7'' ''right$hello'' 0]"
  have sel: "select_live_by_id (NOW (env_at t [])) ''9f3a01c7'' ?db =
      (if t < 60000 then ?db else [])" for t
    by (simp add: select_live_by_id_def live_def example_defs)
  have thrown: "decryptContent (env_at 2 []) (content (secret_row ''9f3a01c7'' ''right$hello'' 0))
      ''wrong'' = Thrown"
    by (simp add: decryptContent_def example_defs)
  have enc: "is_encrypted (secret_row ''9f3a01c7'' ''right$hello'' 0)"
    by (simp add: secret_row_def)
  note a = get_paste_failure_branches [of "env_at 1 []" "''9f3a01c7''" None ?db]
  note b = get_paste_failure_branches [of "env_at 2 []" "''9f3a01c7''" "Some ''wrong''" ?db]
  note c = get_paste_failure_branches [of "env_at 60000 []" "''9f3a01c7''" "Some ''right''" ?db]
  have a1: "fst (get_paste (env_at 1 []) ''9f3a01c7'' None ?db) =
      Json_error 401 ''Password required for encrypted paste''"
    using a sel [of 1] enc by simp
  have b1: "fst (get_paste (env_at 2 []) ''9f3a01c7'' (Some ''wrong'') ?db) =
      Json_error 401 ''Invalid password''"
    using b sel [of 2] enc thrown by simp
  have c1: "fst (get_paste (env_at 60000 []) ''9f3a01c7'' (Some ''right'') ?db) =
      Json_error 404 ''Paste not found''"
    using c sel [of 60000] by simp
  from a a1 have a2: "snd (get_paste (env_at 1 []) ''9f3a01c7'' None ?db) = ?db" by blast
  from b b1 have b2: "snd (get_paste (env_at 2 []) ''9f3a01c7'' (Some ''wrong'') ?db) = ?db"
    by blast
  from c c1 have c2: "snd (get_paste (env_at 60000 []) ''9f3a01c7'' (Some ''right'') ?db) = ?db"
    by blast
  from a1 a2 b1 b2 c1 c2 show ?thesis by (simp only: simp_thms)
qed

subsection \<open>The view counter\<close>

lemma get_paste_views:
  assumes "get_paste e j pw db = (a, db')"
  shows "stored_views i db' =
     (if successful_read i (Get_paste j pw) a
      then map_option (\<lambda>n. n + 1) (stored_views i db) else stored_views i db)"
proof (cases a)
  case (Json_paste q)
  with assms have "get_paste e j pw db = (Json_paste q, db')" by simp
  from get_paste_Json_paste_table [OF this] obtain db1 where
    "increment_views j db = Some db1" "db' = db1 \<or> db' = set_deleted j db1"
    by (elim exE conjE)
  with Json_paste show ?thesis by (auto simp: stored_views_increment)
next
  case (Json_error n m)
  with assms have "db' = db" by (simp add: get_paste_error_unchanged)
  with Json_error show ?thesis by simp
next
  case (Json_id x)
  with assms get_paste_response [of e j pw db] show ?thesis by simp
next
  case (Json_pastes x)
  with assms get_paste_response [of e j pw db] show ?thesis by simp
next
  case (Json_preview x)
  with assms get_paste_response [of e j pw db] show ?thesis by simp
next
  case (Json_message x)
  with assms get_paste_response [of e j pw db] show ?thesis by simp
qed

lemma create_paste_cases:
  "create_paste e body db = (Json_error 500 ''Failed to create paste'', db) \<or>
   (\<forall>p \<in> set db. paste_id p \<noteq> randomBytes_hex e) \<and>
   (\<exists>c. create_paste e body db =
      (Json_id (randomBytes_hex e),
       db @ [\<lparr>paste_id = randomBytes_hex e, content = c, language = body_language body,
               expires_at = (case expiresIn body of
                               None \<Rightarrow> None
                             | Some d \<Rightarrow> if d = 0 then None else Some (Date_now e + d)),
               burn_after_read = burnAfterRead body, is_private = isPrivate body, views = 0,
               created_at = NOW e, deleted = False,
               is_encrypted = truthy (body_password body)\<rparr>]))"
  by (auto simp: create_paste_def insert_paste_def Let_def
      split: option.splits js_result.splits)

lemma create_paste_views:
  assumes "create_paste e body db = (a, db')" and "stored_views i db = Some n"
  shows "stored_views i db' = Some n"
  using create_paste_cases [of e body db] assms by (auto simp: stored_views_append)

lemma create_paste_fresh:
  assumes "create_paste e body db = (Json_id i, db0)"
  shows "stored_views i db0 = Some 0"
proof -
  from create_paste_cases [of e body db] assms obtain row where
    "\<forall>p \<in> set db. paste_id p \<noteq> i" "db0 = db @ [row]" "paste_id row = i" "views row = 0"
    by auto
  moreover from this have "stored_views i db = None" by (simp add: stored_views_None)
  ultimately show ?thesis by (simp add: stored_views_append)
qed

lemma handle_views:
  assumes "handle e r db = (a, db')" and "stored_views i db = Some n"
  shows "stored_views i db' = Some (n + (if successful_read i r a then 1 else 0))"
proof (cases r)
  case (Create_paste body)
  with assms create_paste_views [of e body db a db' i n] show ?thesis by simp
next
  case (Get_paste j pw)
  with assms get_paste_views [of e j pw db a db' i] show ?thesis by simp
next
  case List_pastes
  with assms show ?thesis by (auto simp: list_pastes_def)
next
  case (Preview_paste j)
  with assms show ?thesis by (auto simp: preview_paste_def split: list.splits)
next
  case (Delete_paste j)
  with assms show ?thesis by (auto simp: delete_paste_def split: list.splits)
qed

lemma serve_Cons:
  "serve ((e, r) # rs) db =
     (fst (handle e r db) # fst (serve rs (snd (handle e r db))),
      snd (serve rs (snd (handle e r db))))"
  by (simp add: case_prod_unfold Let_def)

lemma serve_views:
  "serve rs db = (as, db') \<Longrightarrow> stored_views i db = Some n \<Longrightarrow>
     stored_views i db' = Some (n + int (successful_reads i rs as))"
proof (induction rs arbitrary: db as n)
  case Nil
  then show ?case by (simp add: successful_reads_def)
next
  case (Cons er rs)
  obtain e r where er: "er = (e, r)" by (cases er)
  obtain a db1 where h: "handle e r db = (a, db1)" by (cases "handle e r db")
  obtain as1 where s: "serve rs db1 = (as1, db')" and as: "as = a # as1"
    using Cons.prems(1) er h by (cases "serve rs db1") (simp add: serve_Cons del: serve.simps)
  from handle_views [OF h Cons.prems(2)]
  have "stored_views i db1 = Some (n + (if successful_read i r a then 1 else 0))" .
  from Cons.IH [OF s this] show ?case
    by (simp add: as er successful_reads_def)
qed

text \<open>
  Claim C6. A paste that has just been created has the counter 0, and after any sequence
  of requests (reads of this and of other pastes, with any passphrase, previews, lists,
  deletions, creations, at any times) the stored counter is the number of successful full
  reads of the paste among them: each adds one and nothing else changes the counter. The
  theorem does not need the paste to be without \<^verbatim>\<open>burnAfterRead\<close>.
\<close>

theorem views_count_successful_reads:
  assumes "create_paste e body db = (Json_id i, db0)" and "serve rs db0 = (as, db')"
  shows "stored_views i db0 = Some 0 \<and>
     stored_views i db' = Some (int (successful_reads i rs as))"
  using create_paste_fresh [OF assms(1)] serve_views [OF assms(2), of i 0] by simp

text \<open>
  A paste without \<^verbatim>\<open>burnAfterRead\<close>, read three times among a preview, a list and a read
  of an identifier that is not there: the counter ends at 3.
\<close>

theorem views_count_successful_reads_witness:
  "fst (create_paste (env_at 0 ''9f3a01c7'') (plain_body ''hello'' False) []) =
     Json_id ''9f3a01c7'' \<and>
   stored_views ''9f3a01c7''
     (snd (create_paste (env_at 0 ''9f3a01c7'') (plain_body ''hello'' False) [])) = Some 0 \<and>
   stored_views ''9f3a01c7''
     (snd (serve
        [(env_at 1 [], Get_paste ''9f3a01c7'' None),
         (env_at 2 [], Preview_paste ''9f3a01c7''),
         (env_at 3 [], Get_paste ''9f3a01c7'' (Some ''x'')),
         (env_at 4 [], List_pastes),
         (env_at 5 [], Get_paste ''0badc0de'' None),
         (env_at 6 [], Get_paste ''9f3a01c7'' None)]
        (snd (create_paste (env_at 0 ''9f3a01c7'') (plain_body ''hello'' False) [])))) =
     Some 3"
proof -
  let ?rs = "[(env_at 1 [], Get_paste ''9f3a01c7'' None),
         (env_at 2 [], Preview_paste ''9f3a01c7''),
         (env_at 3 [], Get_paste ''9f3a01c7'' (Some ''x'')),
         (env_at 4 [], List_pastes),
         (env_at 5 [], Get_paste ''0badc0de'' None),
         (env_at 6 [], Get_paste ''9f3a01c7'' None)]"
  let ?db0 = "[plain_row ''9f3a01c7'' ''hello'' False 0 0]"
  have c: "create_paste (env_at 0 ''9f3a01c7'') (plain_body ''hello'' False) [] =
      (Json_id ''9f3a01c7'', ?db0)"
    by (simp add: create_paste_def insert_paste_def Let_def example_defs)
  have s: "serve ?rs ?db0 = (fst (serve ?rs ?db0), snd (serve ?rs ?db0))" by simp
  have n: "successful_reads ''9f3a01c7'' ?rs (fst (serve ?rs ?db0)) = 3"
    by (simp add: successful_reads_def handler_defs example_defs)
  from views_count_successful_reads [OF c s] n show ?thesis by (simp add: c)
qed

subsection \<open>The primary key\<close>

text \<open>
  No handler gives two rows the same identifier: \<^verbatim>\<open>INSERT\<close> refuses an identifier that is
  there, and the updates keep the identifiers. So the tables the server can reach from
  the empty one have distinct identifiers.
\<close>

lemma create_paste_distinct:
  "distinct (map paste_id db) \<Longrightarrow> distinct (map paste_id (snd (create_paste e body db)))"
proof -
  assume d: "distinct (map paste_id db)"
  from create_paste_cases [of e body db] show ?thesis
  proof (elim disjE conjE exE)
    assume "create_paste e body db = (Json_error 500 ''Failed to create paste'', db)"
    with d show ?thesis by simp
  next
    fix c
    assume fresh: "\<forall>p \<in> set db. paste_id p \<noteq> randomBytes_hex e"
      and "create_paste e body db =
        (Json_id (randomBytes_hex e),
         db @ [\<lparr>paste_id = randomBytes_hex e, content = c, language = body_language body,
               expires_at = (case expiresIn body of
                               None \<Rightarrow> None
                             | Some d \<Rightarrow> if d = 0 then None else Some (Date_now e + d)),
               burn_after_read = burnAfterRead body, is_private = isPrivate body, views = 0,
               created_at = NOW e, deleted = False,
               is_encrypted = truthy (body_password body)\<rparr>])"
    moreover from fresh have "randomBytes_hex e \<notin> paste_id ` set db"
      by (auto simp: image_iff)
    ultimately show ?thesis using d by simp
  qed
qed

lemma get_paste_ids: "map paste_id (snd (get_paste e i pw db)) = map paste_id db"
proof (cases "fst (get_paste e i pw db)")
  case (Json_paste q)
  then have "get_paste e i pw db = (Json_paste q, snd (get_paste e i pw db))"
    by (simp add: prod_eq_iff)
  from get_paste_Json_paste_table [OF this] show ?thesis
    by (auto dest: increment_views_ids)
next
  case (Json_error n m)
  then have "get_paste e i pw db = (Json_error n m, snd (get_paste e i pw db))"
    by (simp add: prod_eq_iff)
  from get_paste_error_unchanged [OF this] show ?thesis by simp
qed (use get_paste_response [of e i pw db] in simp_all)

lemma handle_distinct:
  "distinct (map paste_id db) \<Longrightarrow> distinct (map paste_id (snd (handle e r db)))"
proof (cases r)
  case (Create_paste body)
  then show "distinct (map paste_id db) \<Longrightarrow> ?thesis" by (simp add: create_paste_distinct)
next
  case (Get_paste i pw)
  then show "distinct (map paste_id db) \<Longrightarrow> ?thesis" by (simp add: get_paste_ids)
next
  case List_pastes
  then show "distinct (map paste_id db) \<Longrightarrow> ?thesis" by (simp add: list_pastes_def)
next
  case (Preview_paste i)
  then show "distinct (map paste_id db) \<Longrightarrow> ?thesis"
    by (simp add: preview_paste_def split: list.splits)
next
  case (Delete_paste i)
  then show "distinct (map paste_id db) \<Longrightarrow> ?thesis"
    by (simp add: delete_paste_def split: list.splits)
qed

lemma serve_distinct:
  "distinct (map paste_id db) \<Longrightarrow> distinct (map paste_id (snd (serve rs db)))"
proof (induction rs arbitrary: db)
  case Nil
  then show ?case by simp
next
  case (Cons er rs)
  obtain e r where er: "er = (e, r)" by (cases er)
  from Cons.prems have "distinct (map paste_id (snd (handle e r db)))"
    by (rule handle_distinct)
  from Cons.IH [OF this] show ?case by (simp add: er serve_Cons del: serve.simps)
qed

lemma serve_from_empty_distinct: "distinct (map paste_id (snd (serve rs [])))"
  by (rule serve_distinct) simp

lemma same_id_same_row:
  assumes "distinct (map paste_id db)" and "p \<in> set db" and "q \<in> set db"
    and "paste_id q = paste_id p"
  shows "q = p"
proof -
  from assms(1) have "inj_on paste_id (set db)" by (simp add: distinct_map)
  with assms(2-4) show ?thesis by (simp add: inj_on_eq_iff)
qed

lemma filter_distinct:
  "distinct (map f xs) \<Longrightarrow> p \<in> set xs \<Longrightarrow>
     filter (\<lambda>q. f q = f p \<and> P q) xs = (if P p then [p] else [])"
proof (induction xs)
  case Nil
  then show ?case by simp
next
  case (Cons x xs)
  show ?case
  proof (cases "x = p")
    case True
    with Cons.prems have "\<forall>q \<in> set xs. f q \<noteq> f p" by (auto simp: image_iff)
    then have "filter (\<lambda>q. f q = f p \<and> P q) xs = []" by (simp add: filter_empty_conv)
    with True show ?thesis by simp
  next
    case False
    with Cons.prems have "p \<in> set xs" "f x \<noteq> f p" by (auto simp: image_iff)
    with Cons show ?thesis by simp
  qed
qed

lemma find_distinct:
  "distinct (map f xs) \<Longrightarrow> p \<in> set xs \<Longrightarrow> find (\<lambda>q. f q = f p) xs = Some p"
  by (induction xs) (auto simp: image_iff)

lemma select_live_distinct:
  "distinct (map paste_id db) \<Longrightarrow> p \<in> set db \<Longrightarrow>
     select_live_by_id now (paste_id p) db = (if live now p then [p] else [])"
  unfolding select_live_by_id_def by (rule filter_distinct)

lemma stored_views_distinct:
  "distinct (map paste_id db) \<Longrightarrow> p \<in> set db \<Longrightarrow>
     stored_views (paste_id p) db = Some (views p)"
  by (simp add: stored_views_def find_distinct)

lemma increment_views_row:
  assumes d: "distinct (map paste_id db)" and p: "p \<in> set db" and v: "views p < INT_MAX"
  shows "\<exists>db1. increment_views (paste_id p) db = Some db1 \<and>
     p\<lparr>views := views p + 1\<rparr> \<in> set db1 \<and> distinct (map paste_id db1)"
proof -
  let ?inc = "\<lambda>q. if paste_id q = paste_id p then q\<lparr>views := views q + 1\<rparr> else q"
  have "\<not> (\<exists>q \<in> set db. paste_id q = paste_id p \<and> views q + 1 > INT_MAX)"
  proof
    assume "\<exists>q \<in> set db. paste_id q = paste_id p \<and> views q + 1 > INT_MAX"
    then obtain q where q: "q \<in> set db" "paste_id q = paste_id p" "views q + 1 > INT_MAX"
      by blast
    from same_id_same_row [OF d p q(1,2)] q(3) v show False by simp
  qed
  then have i: "increment_views (paste_id p) db = Some (map ?inc db)"
    by (simp add: increment_views_def)
  have "?inc p \<in> ?inc ` set db" using p by (rule imageI)
  moreover have "?inc p = p\<lparr>views := views p + 1\<rparr>" by simp
  ultimately have "p\<lparr>views := views p + 1\<rparr> \<in> set (map ?inc db)"
    by (simp only: set_map)
  moreover from increment_views_ids [OF i] d have "distinct (map paste_id (map ?inc db))"
    by (simp only:)
  ultimately show ?thesis using i by blast
qed

subsection \<open>What a successful read reports\<close>

text \<open>
  Claim C10. In a table with distinct identifiers, the \<open>views\<close> of the paste a successful
  read returns is the stored counter before the read, and the stored counter after the
  read is one more: the response is the row fetched before the update.
\<close>

theorem response_views_before_increment:
  assumes "distinct (map paste_id db)" and "get_paste e i pw db = (Json_paste q, db')"
  shows "stored_views i db = Some (views q) \<and> stored_views i db' = Some (views q + 1)"
proof -
  from get_paste_Json_paste [OF assms(2)] obtain p ps where
    sel: "select_live_by_id (NOW e) i db = p # ps" and q: "q = p\<lparr>content := content q\<rparr>"
    by blast
  from select_live_Cons [OF sel] have p: "p \<in> set db" "paste_id p = i" by simp_all
  from q have "views q = views p" by (cases p, cases q) simp
  with stored_views_distinct [OF assms(1) p(1)] p(2)
  have v: "stored_views i db = Some (views q)" by simp
  from get_paste_views [OF assms(2), of i] v show ?thesis by simp
qed

text \<open>The first read of a paste that has just been created reports \<open>views = 0\<close> and stores 1.\<close>

theorem response_views_before_increment_witness:
  "get_paste (env_at 1 []) ''9f3a01c7'' None [plain_row ''9f3a01c7'' ''hello'' False 0 0] =
     (Json_paste (plain_row ''9f3a01c7'' ''hello'' False 0 0),
      [plain_row ''9f3a01c7'' ''hello'' False 1 0]) \<and>
   stored_views ''9f3a01c7'' [plain_row ''9f3a01c7'' ''hello'' False 0 0] =
     Some (views (plain_row ''9f3a01c7'' ''hello'' False 0 0)) \<and>
   stored_views ''9f3a01c7'' [plain_row ''9f3a01c7'' ''hello'' False 1 0] =
     Some (views (plain_row ''9f3a01c7'' ''hello'' False 0 0) + 1) \<and>
   views (plain_row ''9f3a01c7'' ''hello'' False 0 0) = 0"
proof -
  have d: "distinct (map paste_id [plain_row ''9f3a01c7'' ''hello'' False 0 0])" by simp
  have g: "get_paste (env_at 1 []) ''9f3a01c7'' None [plain_row ''9f3a01c7'' ''hello'' False 0 0] =
     (Json_paste (plain_row ''9f3a01c7'' ''hello'' False 0 0),
      [plain_row ''9f3a01c7'' ''hello'' False 1 0])"
    by (simp add: handler_defs example_defs)
  from response_views_before_increment [OF d g] g show ?thesis
    by (simp add: plain_row_def)
qed

subsection \<open>Burn after read\<close>

lemma get_paste_unique_plaintext:
  assumes "distinct (map paste_id db)" and "p \<in> set db" and "live (NOW e) p"
    and "\<not> is_encrypted p"
  shows "get_paste e (paste_id p) pw db = count_view (paste_id p) p db"
proof -
  from select_live_distinct [OF assms(1,2), of "NOW e"] assms(3)
  have "select_live_by_id (NOW e) (paste_id p) db = p # []" by simp
  from get_paste_plaintext [OF this assms(4)] show ?thesis .
qed

text \<open>
  Claim C1 says that a paste with \<^verbatim>\<open>burnAfterRead\<close> is readable exactly once. The handler
  tests \<^verbatim>\<open>paste.views >= 1\<close> on the row it fetched before the update, so the first read
  of a fresh paste (stored counter 0) deletes nothing: in a table with distinct
  identifiers, such a paste that is not encrypted and has not expired is returned by the
  first read and again by the second, which reports \<open>views = 1\<close> and deletes the row; only
  the third read answers \<^verbatim>\<open>404\<close>.
\<close>

theorem burn_after_read_read_twice:
  assumes d: "distinct (map paste_id db)" and p: "p \<in> set db"
    and burn: "burn_after_read p" and ne: "\<not> is_encrypted p" and v: "views p = 0"
    and l1: "live (NOW e1) p" and l2: "live (NOW e2) p"
  shows "fst (get_paste e1 (paste_id p) pw1 db) = Json_paste p \<and>
     fst (get_paste e2 (paste_id p) pw2 (snd (get_paste e1 (paste_id p) pw1 db))) =
       Json_paste (p\<lparr>views := 1\<rparr>) \<and>
     fst (get_paste e3 (paste_id p) pw3
            (snd (get_paste e2 (paste_id p) pw2 (snd (get_paste e1 (paste_id p) pw1 db))))) =
       Json_error 404 ''Paste not found''"
proof -
  let ?i = "paste_id p"
  let ?p1 = "p\<lparr>views := 1\<rparr>"
  from v have "views p < INT_MAX" by (simp add: INT_MAX_def)
  from increment_views_row [OF d p this] v obtain db1 where
    i1: "increment_views ?i db = Some db1" and p1: "?p1 \<in> set db1"
    and d1: "distinct (map paste_id db1)"
    by auto
  have g1: "get_paste e1 ?i pw1 db = (Json_paste p, db1)"
    using get_paste_unique_plaintext [OF d p l1 ne, of pw1] i1 v
    by (simp add: count_view_def)
  have id1: "paste_id ?p1 = ?i" by simp
  have live1: "live (NOW e2) ?p1" using l2 by (simp add: live_def)
  have ne1: "\<not> is_encrypted ?p1" using ne by simp
  have "views ?p1 < INT_MAX" by (simp add: INT_MAX_def)
  from increment_views_row [OF d1 p1 this] obtain db2 where
    i2: "increment_views ?i db1 = Some db2"
    by auto
  have g2: "get_paste e2 ?i pw2 db1 = (Json_paste ?p1, set_deleted ?i db2)"
    using get_paste_unique_plaintext [OF d1 p1 live1 ne1, of pw2] i2 burn
    by (simp add: count_view_def)
  have g3: "get_paste e3 ?i pw3 (set_deleted ?i db2) =
      (Json_error 404 ''Paste not found'', set_deleted ?i db2)"
    by (rule get_paste_not_found) simp
  show ?thesis by (simp only: g1 g2 g3 fst_conv snd_conv simp_thms)
qed

text \<open>
  A paste created with \<^verbatim>\<open>burnAfterRead = true\<close> and read three times: it is returned
  twice.
\<close>

theorem burn_after_read_read_twice_witness:
  "create_paste (env_at 0 ''9f3a01c7'') (plain_body ''hello'' True) [] =
     (Json_id ''9f3a01c7'', [plain_row ''9f3a01c7'' ''hello'' True 0 0]) \<and>
   fst (get_paste (env_at 1 []) ''9f3a01c7'' None [plain_row ''9f3a01c7'' ''hello'' True 0 0]) =
     Json_paste (plain_row ''9f3a01c7'' ''hello'' True 0 0) \<and>
   fst (get_paste (env_at 2 []) ''9f3a01c7'' None
     (snd (get_paste (env_at 1 []) ''9f3a01c7'' None
        [plain_row ''9f3a01c7'' ''hello'' True 0 0]))) =
     Json_paste (plain_row ''9f3a01c7'' ''hello'' True 1 0) \<and>
   fst (get_paste (env_at 3 []) ''9f3a01c7'' None
     (snd (get_paste (env_at 2 []) ''9f3a01c7'' None
        (snd (get_paste (env_at 1 []) ''9f3a01c7'' None
           [plain_row ''9f3a01c7'' ''hello'' True 0 0]))))) =
     Json_error 404 ''Paste not found''"
proof -
  let ?p = "plain_row ''9f3a01c7'' ''hello'' True 0 0"
  have c: "create_paste (env_at 0 ''9f3a01c7'') (plain_body ''hello'' True) [] =
     (Json_id ''9f3a01c7'', [?p])"
    by (simp add: create_paste_def insert_paste_def Let_def example_defs)
  have h: "distinct (map paste_id [?p])" "?p \<in> set [?p]" "burn_after_read ?p"
    "\<not> is_encrypted ?p" "views ?p = 0" "live (NOW (env_at 1 [])) ?p"
    "live (NOW (env_at 2 [])) ?p"
    by (simp_all add: live_def example_defs)
  have i: "paste_id ?p = ''9f3a01c7''" "?p\<lparr>views := 1\<rparr> = plain_row ''9f3a01c7'' ''hello'' True 1 0"
    by (simp_all add: plain_row_def)
  from burn_after_read_read_twice [OF h, of None None "env_at 3 []" None] c
  show ?thesis by (simp only: i simp_thms)
qed

text \<open>The same requests through \<open>serve\<close>, from the empty table.\<close>

lemma burn_after_read_trace:
  "serve [(env_at 0 ''9f3a01c7'', Create_paste (plain_body ''hello'' True)),
          (env_at 1 [], Get_paste ''9f3a01c7'' None),
          (env_at 2 [], Get_paste ''9f3a01c7'' None),
          (env_at 3 [], Get_paste ''9f3a01c7'' None)] [] =
     ([Json_id ''9f3a01c7'',
       Json_paste (plain_row ''9f3a01c7'' ''hello'' True 0 0),
       Json_paste (plain_row ''9f3a01c7'' ''hello'' True 1 0),
       Json_error 404 ''Paste not found''],
      [(plain_row ''9f3a01c7'' ''hello'' True 2 0)\<lparr>deleted := True\<rparr>])"
  by (simp add: handler_defs example_defs)

subsection \<open>Wrong passphrases\<close>

text \<open>
  Claim C2 says that a read with a wrong passphrase always fails with
  \<^verbatim>\<open>Invalid password\<close>, also when decrypting gives garbage or nothing. The handler answers
  \<^verbatim>\<open>Invalid password\<close> only when \<^verbatim>\<open>decryptContent\<close> throws. Whenever it returns a string,
  whatever the string and also the empty one, the read succeeds with that string as the
  content (and counts a view), as long as the update of the counter does not fail.
\<close>

theorem get_paste_decrypt_returned:
  assumes "select_live_by_id (NOW e) i db = p # ps" and "is_encrypted p" and "pw \<noteq> []"
    and "decryptContent e (content p) pw = Returned c"
    and "increment_views i db = Some db1"
  shows "fst (get_paste e i (Some pw) db) = Json_paste (p\<lparr>content := c\<rparr>) \<and>
     stored_views i (snd (get_paste e i (Some pw) db)) =
       map_option (\<lambda>n. n + 1) (stored_views i db)"
proof -
  from get_paste_decrypted [OF assms(1-4)] assms(5)
  have g: "get_paste e i (Some pw) db =
      (Json_paste (p\<lparr>content := c\<rparr>),
       if burn_after_read (p\<lparr>content := c\<rparr>) \<and> views (p\<lparr>content := c\<rparr>) \<ge> 1
       then set_deleted i db1 else db1)"
    by (simp add: count_view_def)
  from get_paste_views [OF g, of i] g show ?thesis by simp
qed

text \<open>
  With the stand-in library, the paste encrypted under \<open>right\<close> and read with \<open>wrong!\<close>:
  the library returns no bytes, and the read succeeds with the empty content.
\<close>

theorem get_paste_decrypt_returned_witness:
  "create_paste (env_at 0 ''9f3a01c7'') (secret_body ''hello'' (Some ''right'')) [] =
     (Json_id ''9f3a01c7'', [secret_row ''9f3a01c7'' ''right$hello'' 0]) \<and>
   decryptContent (env_at 2 []) ''right$hello'' ''wrong!'' = Returned [] \<and>
   fst (get_paste (env_at 2 []) ''9f3a01c7'' (Some ''wrong!'')
          [secret_row ''9f3a01c7'' ''right$hello'' 0]) =
     Json_paste ((secret_row ''9f3a01c7'' ''right$hello'' 0)\<lparr>content := []\<rparr>) \<and>
   stored_views ''9f3a01c7''
     (snd (get_paste (env_at 2 []) ''9f3a01c7'' (Some ''wrong!'')
        [secret_row ''9f3a01c7'' ''right$hello'' 0])) = Some 1"
proof -
  let ?p = "secret_row ''9f3a01c7'' ''right$hello'' 0"
  have c: "create_paste (env_at 0 ''9f3a01c7'') (secret_body ''hello'' (Some ''right'')) [] =
     (Json_id ''9f3a01c7'', [?p])"
    by (simp add: create_paste_def insert_paste_def encryptContent_def Let_def example_defs)
  have dec: "decryptContent (env_at 2 []) ''right$hello'' ''wrong!'' = Returned []"
    by (simp add: decryptContent_def example_defs)
  have h: "select_live_by_id (NOW (env_at 2 [])) ''9f3a01c7'' [?p] = ?p # []"
    "is_encrypted ?p" "''wrong!'' \<noteq> []"
    "decryptContent (env_at 2 []) (content ?p) ''wrong!'' = Returned []"
    "increment_views ''9f3a01c7'' [?p] = Some [secret_row ''9f3a01c7'' ''right$hello'' 1]"
    by (simp_all add: select_live_by_id_def live_def increment_views_def INT_MAX_def
        decryptContent_def example_defs)
  have s: "stored_views ''9f3a01c7'' [?p] = Some 0"
    by (simp add: stored_views_def secret_row_def)
  from get_paste_decrypt_returned [OF h] c dec s show ?thesis by simp
qed

subsection \<open>The empty passphrase\<close>

text \<open>
  Claim C9. A creation with the passphrase \<^verbatim>\<open>""\<close> stores the content as it is, with
  \<open>is_encrypted = false\<close>, exactly as a creation with no passphrase does; and a read of an
  encrypted live paste with the passphrase \<^verbatim>\<open>""\<close> answers \<^verbatim>\<open>Password required\<close>, leaves
  the table as it is and does not call the library.
\<close>

theorem empty_password_is_no_password:
  "(body_password body = Some [] \<longrightarrow>
      create_paste e body db = create_paste e (body\<lparr>body_password := None\<rparr>) db \<and>
      create_paste e body db =
        (if \<exists>p \<in> set db. paste_id p = randomBytes_hex e
         then (Json_error 500 ''Failed to create paste'', db)
         else (Json_id (randomBytes_hex e),
               db @ [\<lparr>paste_id = randomBytes_hex e, content = body_content body,
                       language = body_language body,
                       expires_at = (case expiresIn body of
                                       None \<Rightarrow> None
                                     | Some d \<Rightarrow> if d = 0 then None else Some (Date_now e + d)),
                       burn_after_read = burnAfterRead body, is_private = isPrivate body,
                       views = 0, created_at = NOW e, deleted = False,
                       is_encrypted = False\<rparr>]))) \<and>
   (select_live_by_id (NOW e) i db = p # ps \<and> is_encrypted p \<longrightarrow>
      get_paste e i (Some []) db =
        (Json_error 401 ''Password required for encrypted paste'', db) \<and>
      get_paste (e\<lparr>AES_decrypt := f, enc_Utf8 := g\<rparr>) i (Some []) db =
        get_paste e i (Some []) db)"
  by (simp add: create_paste_def insert_paste_def get_paste_def Let_def)

theorem empty_password_is_no_password_witness:
  "create_paste (env_at 0 ''9f3a01c7'') (secret_body ''hello'' (Some [])) [] =
     (Json_id ''9f3a01c7'',
      [\<lparr>paste_id = ''9f3a01c7'', content = ''hello'', language = ''plain'',
        expires_at = Some 60000, burn_after_read = False, is_private = True, views = 0,
        created_at = 0, deleted = False, is_encrypted = False\<rparr>]) \<and>
   get_paste (env_at 1 []) ''9f3a01c7'' (Some []) [secret_row ''9f3a01c7'' ''right$hello'' 0] =
     (Json_error 401 ''Password required for encrypted paste'',
      [secret_row ''9f3a01c7'' ''right$hello'' 0])"
proof -
  let ?p = "secret_row ''9f3a01c7'' ''right$hello'' 0"
  note t = empty_password_is_no_password
    [where body = "secret_body ''hello'' (Some [])" and e = "env_at 0 ''9f3a01c7''"
       and db = "[]"]
  note u = empty_password_is_no_password
    [where e = "env_at 1 []" and db = "[?p]" and i = "''9f3a01c7''" and p = ?p
       and ps = "[]"]
  have b: "body_password (secret_body ''hello'' (Some [])) = Some []"
    by (simp add: secret_body_def)
  have s: "select_live_by_id (NOW (env_at 1 [])) ''9f3a01c7'' [?p] = ?p # [] \<and> is_encrypted ?p"
    by (simp add: select_live_by_id_def live_def example_defs)
  have x: "secret_body ''hello'' (Some []) =
      \<lparr>body_content = ''hello'', expiresIn = Some 60000, body_language = ''plain'',
       burnAfterRead = False, isPrivate = True, body_password = Some []\<rparr>"
    by (simp add: secret_body_def)
  note t [THEN conjunct1, THEN mp, OF b, THEN conjunct2]
  then have "create_paste (env_at 0 ''9f3a01c7'') (secret_body ''hello'' (Some [])) [] =
     (Json_id ''9f3a01c7'',
      [\<lparr>paste_id = ''9f3a01c7'', content = ''hello'', language = ''plain'',
        expires_at = Some 60000, burn_after_read = False, is_private = True, views = 0,
        created_at = 0, deleted = False, is_encrypted = False\<rparr>])"
    by (simp add: x env_at_def)
  moreover from u [THEN conjunct2, THEN mp, OF s, THEN conjunct1]
  have "get_paste (env_at 1 []) ''9f3a01c7'' (Some []) [?p] =
     (Json_error 401 ''Password required for encrypted paste'', [?p])" .
  ultimately show ?thesis by (simp only: simp_thms)
qed

subsection \<open>Deletion\<close>

lemma set_deleted_deletes: "\<forall>q \<in> set (set_deleted i db). paste_id q = i \<longrightarrow> deleted q"
  by (induction db) (simp_all add: set_deleted_def del: if_image_distrib)

lemma set_deleted_keeps:
  "\<forall>q \<in> set db. paste_id q = i \<longrightarrow> deleted q \<Longrightarrow>
     \<forall>q \<in> set (set_deleted j db). paste_id q = i \<longrightarrow> deleted q"
  by (induction db) (simp_all add: set_deleted_def del: if_image_distrib)

lemma increment_keeps:
  "\<forall>q \<in> set db. paste_id q = i \<longrightarrow> deleted q \<Longrightarrow>
     \<forall>q \<in> set (map (\<lambda>p. if paste_id p = j then p\<lparr>views := views p + 1\<rparr> else p) db).
        paste_id q = i \<longrightarrow> deleted q"
  by (induction db) (simp_all del: if_image_distrib)

lemma all_deleted_set_deleted:
  assumes "all_deleted i db"
  shows "all_deleted i (set_deleted j db)"
proof -
  from assms have "i \<in> set (map paste_id (set_deleted j db))"
    by (simp add: all_deleted_def)
  moreover from assms have "\<forall>q \<in> set db. paste_id q = i \<longrightarrow> deleted q"
    by (simp add: all_deleted_def)
  then have "\<forall>q \<in> set (set_deleted j db). paste_id q = i \<longrightarrow> deleted q"
    by (rule set_deleted_keeps)
  ultimately show ?thesis by (simp only: all_deleted_def simp_thms)
qed

lemma all_deleted_increment:
  assumes "all_deleted i db" and "increment_views j db = Some db1"
  shows "all_deleted i db1"
proof -
  from assms(2)
  have db1: "db1 = map (\<lambda>p. if paste_id p = j then p\<lparr>views := views p + 1\<rparr> else p) db"
    by (simp add: increment_views_def split: if_splits)
  from assms(1) have "i \<in> set (map paste_id db1)"
    by (simp add: increment_views_ids [OF assms(2)] all_deleted_def)
  moreover from assms(1) have "\<forall>q \<in> set db. paste_id q = i \<longrightarrow> deleted q"
    by (simp add: all_deleted_def)
  then have "\<forall>q \<in> set db1. paste_id q = i \<longrightarrow> deleted q"
    unfolding db1 by (rule increment_keeps)
  ultimately show ?thesis by (simp only: all_deleted_def simp_thms)
qed

lemma all_deleted_append:
  assumes "all_deleted i db" and "\<forall>p \<in> set db. paste_id p \<noteq> paste_id row"
  shows "all_deleted i (db @ [row])"
proof -
  from assms have "paste_id row \<noteq> i" by (auto simp: all_deleted_def)
  with assms(1) show ?thesis by (simp add: all_deleted_def)
qed

lemma get_paste_table:
  "snd (get_paste e i pw db) = db \<or>
   (\<exists>db1. increment_views i db = Some db1 \<and>
      (snd (get_paste e i pw db) = db1 \<or> snd (get_paste e i pw db) = set_deleted i db1))"
proof (cases "fst (get_paste e i pw db)")
  case (Json_paste q)
  then have "get_paste e i pw db = (Json_paste q, snd (get_paste e i pw db))"
    by (simp add: prod_eq_iff)
  from get_paste_Json_paste_table [OF this] show ?thesis by simp
next
  case (Json_error n m)
  then have "get_paste e i pw db = (Json_error n m, snd (get_paste e i pw db))"
    by (simp add: prod_eq_iff)
  from get_paste_error_unchanged [OF this] show ?thesis by simp
qed (use get_paste_response [of e i pw db] in simp_all)

lemma all_deleted_handle:
  assumes "all_deleted i db"
  shows "all_deleted i (snd (handle e r db))"
proof (cases r)
  case (Create_paste body)
  from create_paste_cases [of e body db] have "all_deleted i (snd (create_paste e body db))"
  proof (elim disjE conjE exE)
    assume "create_paste e body db = (Json_error 500 ''Failed to create paste'', db)"
    with assms show ?thesis by simp
  next
    fix c
    assume fresh: "\<forall>p \<in> set db. paste_id p \<noteq> randomBytes_hex e"
      and c: "create_paste e body db =
        (Json_id (randomBytes_hex e),
         db @ [\<lparr>paste_id = randomBytes_hex e, content = c, language = body_language body,
               expires_at = (case expiresIn body of
                               None \<Rightarrow> None
                             | Some d \<Rightarrow> if d = 0 then None else Some (Date_now e + d)),
               burn_after_read = burnAfterRead body, is_private = isPrivate body, views = 0,
               created_at = NOW e, deleted = False,
               is_encrypted = truthy (body_password body)\<rparr>])"
    from fresh have "all_deleted i (db @ [\<lparr>paste_id = randomBytes_hex e, content = c,
               language = body_language body,
               expires_at = (case expiresIn body of
                               None \<Rightarrow> None
                             | Some d \<Rightarrow> if d = 0 then None else Some (Date_now e + d)),
               burn_after_read = burnAfterRead body, is_private = isPrivate body, views = 0,
               created_at = NOW e, deleted = False,
               is_encrypted = truthy (body_password body)\<rparr>])"
      by (intro all_deleted_append [OF assms]) simp
    then show ?thesis by (simp only: c snd_conv)
  qed
  with Create_paste show ?thesis by simp
next
  case (Get_paste j pw)
  from get_paste_table [of e j pw db] assms have "all_deleted i (snd (get_paste e j pw db))"
    by (auto intro: all_deleted_increment all_deleted_set_deleted [OF all_deleted_increment])
  with Get_paste show ?thesis by simp
next
  case List_pastes
  with assms show ?thesis by (simp add: list_pastes_def)
next
  case (Preview_paste j)
  with assms show ?thesis by (simp add: preview_paste_def split: list.splits)
next
  case (Delete_paste j)
  with assms show ?thesis
    by (simp add: delete_paste_def all_deleted_set_deleted split: list.splits)
qed

lemma all_deleted_serve:
  "all_deleted i db \<Longrightarrow> all_deleted i (snd (serve rs db))"
proof (induction rs arbitrary: db)
  case Nil
  then show ?case by simp
next
  case (Cons er rs)
  obtain e r where er: "er = (e, r)" by (cases er)
  from Cons.prems have "all_deleted i (snd (handle e r db))"
    by (rule all_deleted_handle)
  from Cons.IH [OF this] show ?case by (simp add: er serve_Cons del: serve.simps)
qed

lemma delete_paste_all_deleted:
  assumes "all_deleted i db"
  shows "delete_paste i db = (Json_error 404 ''Paste not found'', db)"
proof -
  from assms have "select_not_deleted_by_id i db = []"
    by (simp add: select_not_deleted_by_id_def all_deleted_def filter_empty_conv)
  then show ?thesis by (simp add: delete_paste_def)
qed

lemma delete_paste_present:
  assumes "p \<in> set db" and "paste_id p = i" and "\<not> deleted p"
  shows "delete_paste i db = (Json_message ''Paste deleted successfully'', set_deleted i db)"
proof -
  from assms have "p \<in> set (select_not_deleted_by_id i db)"
    by (simp add: select_not_deleted_by_id_def)
  then have "select_not_deleted_by_id i db \<noteq> []" by (cases "select_not_deleted_by_id i db") simp_all
  then show ?thesis by (simp add: delete_paste_def split: list.splits)
qed

text \<open>
  Claim C7. Deleting a paste that is in the table and not deleted (expired or not)
  succeeds and marks every row of the identifier as deleted. From then on, whatever
  requests follow, the identifier stays in the table with \<open>deleted = true\<close> (no handler
  resets the flag, and the identifier cannot be created again), and every later deletion
  of it answers \<^verbatim>\<open>404 Paste not found\<close> and changes nothing.
\<close>

theorem delete_paste_twice:
  assumes "p \<in> set db" and "paste_id p = i" and "\<not> deleted p"
  shows "delete_paste i db = (Json_message ''Paste deleted successfully'', set_deleted i db) \<and>
     (\<forall>rs. all_deleted i (snd (serve rs (set_deleted i db))) \<and>
        delete_paste i (snd (serve rs (set_deleted i db))) =
          (Json_error 404 ''Paste not found'', snd (serve rs (set_deleted i db))))"
proof -
  from assms(1) have "paste_id p \<in> paste_id ` set db" by (rule imageI)
  with assms(2) have "i \<in> set (map paste_id (set_deleted i db))"
    by (simp only: paste_id_set_deleted set_map)
  with set_deleted_deletes [of i db] have "all_deleted i (set_deleted i db)"
    by (simp only: all_deleted_def simp_thms)
  then have "all_deleted i (snd (serve rs (set_deleted i db)))" for rs
    by (rule all_deleted_serve)
  with delete_paste_present [OF assms] show ?thesis
    by (simp add: delete_paste_all_deleted)
qed

text \<open>
  A paste is deleted; then it is read, created again under the same identifier and
  deleted again: the deletion answers \<^verbatim>\<open>404\<close> and the row is still the deleted one.
\<close>

theorem delete_paste_twice_witness:
  "delete_paste ''9f3a01c7'' [plain_row ''9f3a01c7'' ''hello'' False 0 0] =
     (Json_message ''Paste deleted successfully'',
      [(plain_row ''9f3a01c7'' ''hello'' False 0 0)\<lparr>deleted := True\<rparr>]) \<and>
   delete_paste ''9f3a01c7'' [(plain_row ''9f3a01c7'' ''hello'' False 0 0)\<lparr>deleted := True\<rparr>] =
     (Json_error 404 ''Paste not found'',
      [(plain_row ''9f3a01c7'' ''hello'' False 0 0)\<lparr>deleted := True\<rparr>]) \<and>
   serve [(env_at 1 [], Get_paste ''9f3a01c7'' None),
          (env_at 2 ''9f3a01c7'', Create_paste (plain_body ''again'' False)),
          (env_at 3 [], Delete_paste ''9f3a01c7'')]
     [(plain_row ''9f3a01c7'' ''hello'' False 0 0)\<lparr>deleted := True\<rparr>] =
     ([Json_error 404 ''Paste not found'', Json_error 500 ''Failed to create paste'',
       Json_error 404 ''Paste not found''],
      [(plain_row ''9f3a01c7'' ''hello'' False 0 0)\<lparr>deleted := True\<rparr>])"
proof -
  let ?p = "plain_row ''9f3a01c7'' ''hello'' False 0 0"
  have h: "?p \<in> set [?p]" "paste_id ?p = ''9f3a01c7''" "\<not> deleted ?p"
    by (simp_all add: plain_row_def)
  have s: "set_deleted ''9f3a01c7'' [?p] = [?p\<lparr>deleted := True\<rparr>]"
    by (simp add: set_deleted_def plain_row_def)
  have t: "serve [(env_at 1 [], Get_paste ''9f3a01c7'' None),
          (env_at 2 ''9f3a01c7'', Create_paste (plain_body ''again'' False)),
          (env_at 3 [], Delete_paste ''9f3a01c7'')] [?p\<lparr>deleted := True\<rparr>] =
     ([Json_error 404 ''Paste not found'', Json_error 500 ''Failed to create paste'',
       Json_error 404 ''Paste not found''], [?p\<lparr>deleted := True\<rparr>])"
    by (simp add: handler_defs example_defs)
  note d = delete_paste_twice [OF h, unfolded s]
  from d [THEN conjunct1] d [THEN conjunct2, THEN spec, of "[]", THEN conjunct2] t
  show ?thesis by simp
qed

subsection \<open>The list and the preview\<close>

lemma listed_ids_list:
  "listed_ids (fst (list_pastes e db)) = map paste_id (select_list_rows (NOW e) db)"
  by (simp add: list_pastes_def select_list_def safePaste_def comp_def)

lemma listed_created_list:
  "listed_created (fst (list_pastes e db)) = map created_at (select_list_rows (NOW e) db)"
  by (simp add: list_pastes_def select_list_def safePaste_def comp_def)

text \<open>What the handler makes of the content the query has selected.\<close>

lemma safePaste_content:
  "sql_content p @ (if length (sql_content p) > 100 then ''...'' else '''') =
     (if is_encrypted p then ''[Encrypted Content]''
      else if length (content p) > 100 then take 100 (content p) @ ''......''
      else content p)"
  by (simp add: sql_content_def)

lemma listed_contents_list:
  "listed_contents (fst (list_pastes e db)) =
     map (\<lambda>p. if is_encrypted p then ''[Encrypted Content]''
               else if length (content p) > 100 then take 100 (content p) @ ''......''
               else content p)
       (select_list_rows (NOW e) db)"
  by (simp add: list_pastes_def select_list_def safePaste_def comp_def safePaste_content)

lemma select_list_rows_sorted:
  "sorted_wrt (\<lambda>a b. a \<ge> b) (map created_at (select_list_rows now db))"
proof -
  let ?rows = "sort_key (\<lambda>p. - created_at p) (filter (live now) db)"
  have "sorted (map (\<lambda>p. - created_at p) ?rows)" by (rule sorted_sort_key)
  then have "sorted_wrt (\<lambda>p q. created_at p \<ge> created_at q) ?rows"
    by (simp add: sorted_wrt_map)
  then have "sorted_wrt (\<lambda>p q. created_at p \<ge> created_at q) (take 100 ?rows)"
    by (rule sorted_wrt_take)
  then show ?thesis by (simp add: select_list_rows_def sorted_wrt_map)
qed

lemma select_list_rows_length: "length (select_list_rows now db) \<le> 100"
  by (simp add: select_list_rows_def)

lemma select_list_rows_subset: "set (select_list_rows now db) \<subseteq> {p \<in> set db. live now p}"
proof -
  have "set (select_list_rows now db) \<subseteq>
      set (sort_key (\<lambda>p. - created_at p) (filter (live now) db))"
    unfolding select_list_rows_def by (rule set_take_subset)
  then show ?thesis by simp
qed

lemma select_list_rows_all:
  "length (filter (live now) db) \<le> 100 \<Longrightarrow>
     set (select_list_rows now db) = {p \<in> set db. live now p}"
  by (simp add: select_list_rows_def)

lemma preview_paste_not_found:
  "preview_paste e i db = (Json_error 404 ''Paste not found'', db) \<longleftrightarrow>
     select_live_by_id (NOW e) i db = []"
  by (cases "select_live_by_id (NOW e) i db") (simp_all add: preview_paste_def select_preview_def)

lemma preview_paste_content:
  "select_live_by_id (NOW e) i db = p # ps \<Longrightarrow>
     \<exists>pv. preview_paste e i db = (Json_preview pv, db) \<and> pv_id pv = i \<and>
       pv_content pv =
         (if is_encrypted p then ''[Encrypted Content]''
          else if length (content p) > 100 then take 100 (content p) @ ''...''
          else content p)"
  using select_live_Cons [of "NOW e" i db p ps]
  by (simp add: preview_paste_def select_preview_def sql_content_def)

text \<open>
  Claim C3 says that the list shows an unencrypted content of more than 100 characters
  as its first 100 characters and one ellipsis, as the preview does. The query of the
  list has appended the ellipsis already, and the handler appends it again to what is
  then longer than 100 characters. The list shows the rows \<open>select_list_rows\<close>, in their
  order: at most 100 live rows, the latest first. An encrypted content is shown as the
  placeholder of the preview, \<open>[Encrypted Content]\<close>; an unencrypted content of more than
  100 characters is shown as its first 100 characters and six dots; a shorter one as it
  is. The list changes nothing.
\<close>

theorem list_pastes_entries:
  "listed_ids (fst (list_pastes e db)) = map paste_id (select_list_rows (NOW e) db) \<and>
   listed_contents (fst (list_pastes e db)) =
     map (\<lambda>p. if is_encrypted p then ''[Encrypted Content]''
               else if length (content p) > 100 then take 100 (content p) @ ''......''
               else content p)
       (select_list_rows (NOW e) db) \<and>
   sorted_wrt (\<lambda>a b. a \<ge> b) (listed_created (fst (list_pastes e db))) \<and>
   length (listed_ids (fst (list_pastes e db))) \<le> 100 \<and>
   snd (list_pastes e db) = db"
  using select_list_rows_sorted [of "NOW e" db] select_list_rows_length [of "NOW e" db]
  by (simp only: listed_ids_list listed_contents_list listed_created_list length_map)
    (simp add: list_pastes_def)

text \<open>
  A live paste of 101 characters, not encrypted: the list shows 100 characters and six
  dots, the preview 100 characters and three.
\<close>

theorem list_pastes_entries_witness:
  "listed_contents (fst (list_pastes (env_at 5 [])
      [plain_row ''9f3a01c7'' (replicate 101 CHR ''a'') False 0 1])) =
     [replicate 100 CHR ''a'' @ ''......''] \<and>
   (\<exists>pv. preview_paste (env_at 5 []) ''9f3a01c7''
       [plain_row ''9f3a01c7'' (replicate 101 CHR ''a'') False 0 1] =
         (Json_preview pv, [plain_row ''9f3a01c7'' (replicate 101 CHR ''a'') False 0 1]) \<and>
       pv_content pv = replicate 100 CHR ''a'' @ ''...'')"
proof -
  let ?p = "plain_row ''9f3a01c7'' (replicate 101 CHR ''a'') False 0 1"
  have r: "select_list_rows (NOW (env_at 5 [])) [?p] = [?p]"
    by (simp add: select_list_rows_def live_def plain_row_def)
  have s: "select_live_by_id (NOW (env_at 5 [])) ''9f3a01c7'' [?p] = ?p # []"
    by (simp add: select_live_by_id_def live_def plain_row_def)
  have p: "\<not> is_encrypted ?p" "content ?p = replicate 101 CHR ''a''"
    by (simp_all add: plain_row_def)
  from list_pastes_entries [of "env_at 5 []" "[?p]", THEN conjunct2, THEN conjunct1]
  have "listed_contents (fst (list_pastes (env_at 5 []) [?p])) =
      [replicate 100 CHR ''a'' @ ''......'']"
    by (simp add: r p)
  moreover from preview_paste_content [OF s]
  have "\<exists>pv. preview_paste (env_at 5 []) ''9f3a01c7'' [?p] = (Json_preview pv, [?p]) \<and>
      pv_content pv = replicate 100 CHR ''a'' @ ''...''"
    by (auto simp: p)
  ultimately show ?thesis by (simp only: simp_thms)
qed

subsection \<open>Which pastes the reads show\<close>

text \<open>
  Claim C5 says that a paste is visible to the read, the preview and the list exactly
  when it is live. For the read and the preview it is so: either answers
  \<^verbatim>\<open>404 Paste not found\<close>, the same response whether the identifier is absent, expired or
  deleted, and leaves the table as it is, exactly when no live row has the identifier.
  The list shows live rows only, but at most 100 of them: it shows every live row when at
  most 100 rows are live.
\<close>

theorem not_found_iff_not_live:
  "(get_paste e i pw db = (Json_error 404 ''Paste not found'', db) \<longleftrightarrow>
      \<not> (\<exists>p \<in> set db. paste_id p = i \<and> live (NOW e) p)) \<and>
   (fst (get_paste e i pw db) = Json_error 404 ''Paste not found'' \<longleftrightarrow>
      \<not> (\<exists>p \<in> set db. paste_id p = i \<and> live (NOW e) p)) \<and>
   (preview_paste e i db = (Json_error 404 ''Paste not found'', db) \<longleftrightarrow>
      \<not> (\<exists>p \<in> set db. paste_id p = i \<and> live (NOW e) p)) \<and>
   (fst (preview_paste e i db) = Json_error 404 ''Paste not found'' \<longleftrightarrow>
      \<not> (\<exists>p \<in> set db. paste_id p = i \<and> live (NOW e) p)) \<and>
   set (listed_ids (fst (list_pastes e db))) \<subseteq> paste_id ` {p \<in> set db. live (NOW e) p} \<and>
   (length (filter (live (NOW e)) db) \<le> 100 \<longrightarrow>
      set (listed_ids (fst (list_pastes e db))) = paste_id ` {p \<in> set db. live (NOW e) p})"
proof -
  have g: "get_paste e i pw db = (Json_error 404 ''Paste not found'', db) \<longleftrightarrow>
      select_live_by_id (NOW e) i db = []"
  proof
    assume "get_paste e i pw db = (Json_error 404 ''Paste not found'', db)"
    then have "fst (get_paste e i pw db) = Json_error 404 ''Paste not found''" by simp
    then show "select_live_by_id (NOW e) i db = []" by (simp only: get_paste_404_iff)
  qed (rule get_paste_not_found)
  have pf: "fst (preview_paste e i db) = Json_error 404 ''Paste not found'' \<longleftrightarrow>
      select_live_by_id (NOW e) i db = []"
    by (cases "select_live_by_id (NOW e) i db")
      (simp_all add: preview_paste_def select_preview_def)
  have "set (listed_ids (fst (list_pastes e db))) \<subseteq> paste_id ` {p \<in> set db. live (NOW e) p}"
    unfolding listed_ids_list set_map by (rule image_mono) (rule select_list_rows_subset)
  moreover have "length (filter (live (NOW e)) db) \<le> 100 \<longrightarrow>
      set (listed_ids (fst (list_pastes e db))) = paste_id ` {p \<in> set db. live (NOW e) p}"
    by (simp add: listed_ids_list select_list_rows_all)
  ultimately show ?thesis
    by (simp only: g pf get_paste_404_iff preview_paste_not_found select_live_empty simp_thms)
qed

text \<open>The table \<open>many_rows n\<close>: its rows are live, and the list query turns their order round.\<close>

lemma sort_key_snoc_least:
  "\<forall>y \<in> set xs. f x < f y \<Longrightarrow> sort_key f (xs @ [x]) = x # sort_key f xs"
  for f :: "'a \<Rightarrow> int"
  by (induction xs) (simp_all add: sort_key_def)

lemma sort_key_many_rows:
  "sort_key (\<lambda>p. - created_at p) (many_rows n) = rev (many_rows n)"
proof (induction n)
  case 0
  then show ?case by (simp add: many_rows_def)
next
  case (Suc n)
  have "many_rows (Suc n) = many_rows n @ [plain_row (hex_id n) ''x'' False 0 (int n)]"
    by (simp add: many_rows_def)
  moreover have "\<forall>y \<in> set (many_rows n).
      - created_at (plain_row (hex_id n) ''x'' False 0 (int n)) < - created_at y"
    by (simp add: many_rows_def plain_row_def)
  ultimately show ?case using Suc.IH by (simp add: sort_key_snoc_least)
qed

lemma filter_live_many_rows: "filter (live now) (many_rows n) = many_rows n"
  by (simp add: many_rows_def filter_map comp_def live_def plain_row_def)

lemma select_list_rows_many_rows:
  "select_list_rows now (many_rows (100 + k)) =
     rev (map (\<lambda>j. plain_row (hex_id j) ''x'' False 0 (int j)) [k..<100 + k])"
proof -
  have "take 100 (rev (many_rows (100 + k))) = rev (drop k (many_rows (100 + k)))"
    by (simp add: take_rev many_rows_def)
  also have "drop k (many_rows (100 + k)) =
      map (\<lambda>j. plain_row (hex_id j) ''x'' False 0 (int j)) [k..<100 + k]"
    by (simp add: many_rows_def drop_map)
  finally show ?thesis
    by (simp add: select_list_rows_def filter_live_many_rows sort_key_many_rows)
qed

lemma hex_id_0: "k < 256 \<Longrightarrow> hex_id k = hex_id 0 \<longleftrightarrow> k = 0"
proof -
  assume k: "k < 256"
  let ?ds = "''0123456789abcdef''"
  have d: "distinct ?ds" by simp
  have l: "k div 16 < length ?ds" "k mod 16 < length ?ds" "0 < length ?ds"
    using k by simp_all
  have "hex_id k = hex_id 0 \<longleftrightarrow> ?ds ! (k div 16) = ?ds ! 0 \<and> ?ds ! (k mod 16) = ?ds ! 0"
    by (simp add: hex_id_def)
  also have "\<dots> \<longleftrightarrow> k div 16 = 0 \<and> k mod 16 = 0"
    by (simp only: nth_eq_iff_index_eq [OF d l(1) l(3)] nth_eq_iff_index_eq [OF d l(2) l(3)])
  also have "\<dots> \<longleftrightarrow> k = 0" by auto
  finally show ?thesis .
qed

text \<open>
  With 101 live pastes, created at times 0 to 100, the list leaves out the oldest one,
  which the read still returns.
\<close>

theorem list_pastes_omits_live_row:
  "plain_row (hex_id 0) ''x'' False 0 0 \<in> set (many_rows 101) \<and>
   live 1000 (plain_row (hex_id 0) ''x'' False 0 0) \<and>
   hex_id 0 \<notin> set (listed_ids (fst (list_pastes (env_at 1000 []) (many_rows 101))))"
proof -
  let ?row = "\<lambda>j. plain_row (hex_id j) ''x'' False 0 (int j)"
  have "?row 0 \<in> ?row ` set [0..<101]" by (rule imageI) simp
  then have a: "plain_row (hex_id 0) ''x'' False 0 0 \<in> set (many_rows 101)"
    by (simp only: many_rows_def set_map of_nat_0)
  have b: "live 1000 (plain_row (hex_id 0) ''x'' False 0 0)"
    by (simp add: live_def plain_row_def)
  have "select_list_rows 1000 (many_rows (100 + 1)) = rev (map ?row [1..<100 + 1])"
    by (rule select_list_rows_many_rows)
  then have "listed_ids (fst (list_pastes (env_at 1000 []) (many_rows 101))) =
      rev (map hex_id [1..<101])"
    by (simp add: listed_ids_list env_at_def rev_map comp_def plain_row_def)
  moreover have "hex_id 0 \<notin> hex_id ` {1..<101}"
  proof
    assume "hex_id 0 \<in> hex_id ` {1..<101}"
    then obtain k where k: "1 \<le> k" "k < 101" "hex_id k = hex_id 0" by auto
    from k(2) have "k < 256" by simp
    from hex_id_0 [OF this] k(1,3) show False by simp
  qed
  ultimately have c: "hex_id 0 \<notin> set (listed_ids (fst (list_pastes (env_at 1000 []) (many_rows 101))))"
    by simp
  from a b c show ?thesis by (simp only: simp_thms)
qed

text \<open>
  Of three pastes, one live, one expired and one deleted, the read and the preview answer
  the same \<^verbatim>\<open>404\<close> for the expired, the deleted and an absent identifier, and the list
  shows the live one alone.
\<close>

theorem not_found_iff_not_live_witness:
  "get_paste (env_at 70000 []) ''000000aa'' (Some ''right'')
     [plain_row ''00000001'' ''a'' False 0 1, secret_row ''000000aa'' ''right$b'' 0,
      (plain_row ''000000bb'' ''c'' False 0 3)\<lparr>deleted := True\<rparr>] =
     (Json_error 404 ''Paste not found'',
      [plain_row ''00000001'' ''a'' False 0 1, secret_row ''000000aa'' ''right$b'' 0,
       (plain_row ''000000bb'' ''c'' False 0 3)\<lparr>deleted := True\<rparr>]) \<and>
   get_paste (env_at 70000 []) ''000000bb'' None
     [plain_row ''00000001'' ''a'' False 0 1, secret_row ''000000aa'' ''right$b'' 0,
      (plain_row ''000000bb'' ''c'' False 0 3)\<lparr>deleted := True\<rparr>] =
     (Json_error 404 ''Paste not found'',
      [plain_row ''00000001'' ''a'' False 0 1, secret_row ''000000aa'' ''right$b'' 0,
       (plain_row ''000000bb'' ''c'' False 0 3)\<lparr>deleted := True\<rparr>]) \<and>
   get_paste (env_at 70000 []) ''000000cc'' None
     [plain_row ''00000001'' ''a'' False 0 1, secret_row ''000000aa'' ''right$b'' 0,
      (plain_row ''000000bb'' ''c'' False 0 3)\<lparr>deleted := True\<rparr>] =
     (Json_error 404 ''Paste not found'',
      [plain_row ''00000001'' ''a'' False 0 1, secret_row ''000000aa'' ''right$b'' 0,
       (plain_row ''000000bb'' ''c'' False 0 3)\<lparr>deleted := True\<rparr>]) \<and>
   preview_paste (env_at 70000 []) ''000000aa''
     [plain_row ''00000001'' ''a'' False 0 1, secret_row ''000000aa'' ''right$b'' 0,
      (plain_row ''000000bb'' ''c'' False 0 3)\<lparr>deleted := True\<rparr>] =
     (Json_error 404 ''Paste not found'',
      [plain_row ''00000001'' ''a'' False 0 1, secret_row ''000000aa'' ''right$b'' 0,
       (plain_row ''000000bb'' ''c'' False 0 3)\<lparr>deleted := True\<rparr>]) \<and>
   set (listed_ids (fst (list_pastes (env_at 70000 [])
     [plain_row ''00000001'' ''a'' False 0 1, secret_row ''000000aa'' ''right$b'' 0,
      (plain_row ''000000bb'' ''c'' False 0 3)\<lparr>deleted := True\<rparr>]))) = {''00000001''}"
proof -
  let ?db = "[plain_row ''00000001'' ''a'' False 0 1, secret_row ''000000aa'' ''right$b'' 0,
      (plain_row ''000000bb'' ''c'' False 0 3)\<lparr>deleted := True\<rparr>]"
  have lv: "{p \<in> set ?db. live (NOW (env_at 70000 [])) p} = {plain_row ''00000001'' ''a'' False 0 1}"
    by (auto simp: live_def example_defs)
  have n: "\<not> (\<exists>p \<in> set ?db. paste_id p = i \<and> live (NOW (env_at 70000 [])) p)"
    if "i \<noteq> ''00000001''" for i
    using that by (simp add: live_def example_defs)
  have len: "length (filter (live (NOW (env_at 70000 []))) ?db) \<le> 100" by simp
  note a = not_found_iff_not_live [of "env_at 70000 []" "''000000aa''" "Some ''right''" ?db]
  note b = not_found_iff_not_live [of "env_at 70000 []" "''000000bb''" None ?db]
  note c = not_found_iff_not_live [of "env_at 70000 []" "''000000cc''" None ?db]
  have "get_paste (env_at 70000 []) ''000000aa'' (Some ''right'') ?db =
      (Json_error 404 ''Paste not found'', ?db)"
    using a [THEN conjunct1] n [of "''000000aa''"] by simp
  moreover have "get_paste (env_at 70000 []) ''000000bb'' None ?db =
      (Json_error 404 ''Paste not found'', ?db)"
    using b [THEN conjunct1] n [of "''000000bb''"] by simp
  moreover have "get_paste (env_at 70000 []) ''000000cc'' None ?db =
      (Json_error 404 ''Paste not found'', ?db)"
    using c [THEN conjunct1] n [of "''000000cc''"] by simp
  moreover have "preview_paste (env_at 70000 []) ''000000aa'' ?db =
      (Json_error 404 ''Paste not found'', ?db)"
    using a [THEN conjunct2, THEN conjunct2, THEN conjunct1] n [of "''000000aa''"] by simp
  moreover have "set (listed_ids (fst (list_pastes (env_at 70000 []) ?db))) = {''00000001''}"
    using a [THEN conjunct2, THEN conjunct2, THEN conjunct2, THEN conjunct2, THEN conjunct2,
        THEN mp, OF len]
    by (simp only: lv) (simp add: plain_row_def)
  ultimately show ?thesis by (simp only: simp_thms)
qed

end
